theory Spec2Isabelle
  imports Main
begin

section \<open>JavaScript values\<close>

text \<open>
  \<open>useRequest\<close> sniffs an untyped argument list (\<open>...args: any[]\<close>) with \<open>typeof\<close>,
  tests values for truthiness and reads properties of plain objects, so the values the
  composable handles are modelled as a small universe of JavaScript values. An object is
  an association list of its own properties in insertion order. Numbers are the integers
  (status codes and the execution counter never leave the range in which a JavaScript
  number is exact); functions are opaque and carry an identifier.
\<close>

datatype jsval =
    Undefined
  | Null
  | JBool bool
  | JNum int
  | JStr string
  | JFun nat
  | JObj "(string \<times> jsval) list"

type_synonym props = "(string \<times> jsval) list"

text \<open>Truthiness, as tested by \<open>if (v)\<close>, \<open>v ? a : b\<close>, \<open>a && b\<close> and \<open>a || b\<close>.\<close>

fun truthy :: "jsval \<Rightarrow> bool" where
  "truthy Undefined = False"
| "truthy Null = False"
| "truthy (JBool b) = b"
| "truthy (JNum n) = (n \<noteq> 0)"
| "truthy (JStr s) = (s \<noteq> [])"
| "truthy (JFun f) = True"
| "truthy (JObj ps) = True"

text \<open>\<open>v === undefined || v === null\<close>: the test behind \<open>??\<close> and \<open>?.\<close>.\<close>

fun nullish :: "jsval \<Rightarrow> bool" where
  "nullish Undefined = True"
| "nullish Null = True"
| "nullish v = False"

text \<open>Reading the property \<open>k\<close> of an object: a missing property reads as \<open>undefined\<close>.\<close>

definition get_prop :: "props \<Rightarrow> string \<Rightarrow> jsval" where
  "get_prop ps k = (case map_of ps k of None \<Rightarrow> Undefined | Some v \<Rightarrow> v)"

text \<open>
  Reading a property of an arbitrary value that is neither \<open>undefined\<close> nor \<open>null\<close>
  (on those two the read throws and is handled where it occurs): the own properties of
  an object, \<open>undefined\<close> for the options of a primitive.
\<close>

fun get_member :: "jsval \<Rightarrow> string \<Rightarrow> jsval" where
  "get_member (JObj ps) k = get_prop ps k"
| "get_member v k = Undefined"

text \<open>
  Writing a property in an object literal: an existing key keeps its position and takes
  the new value, a new key goes to the end.
\<close>

fun set_prop :: "string \<Rightarrow> jsval \<Rightarrow> props \<Rightarrow> props" where
  "set_prop k v [] = [(k, v)]"
| "set_prop k v ((k', v') # ps) =
     (if k = k' then (k, v) # ps else (k', v') # set_prop k v ps)"

text \<open>
  Object spread \<open>{ ...ps, ...v }\<close>: the own properties of \<open>v\<close> are written over \<open>ps\<close> in
  order. Spreading \<open>undefined\<close>, \<open>null\<close>, a number, a boolean or a function adds nothing.
  (A spread string would add its characters under numeric keys; the configuration is
  typed as an object, and that case is not modelled.)
\<close>

fun spread :: "props \<Rightarrow> jsval \<Rightarrow> props" where
  "spread ps (JObj qs) = fold (\<lambda>(k, v). set_prop k v) qs ps"
| "spread ps v = ps"

section \<open>Transport results\<close>

text \<open>
  The response envelope \<open>interface Response<T> { code; msg; data }\<close> and the part of
  \<open>UniApp.RequestSuccessCallbackResult\<close> the composable reads: \<open>statusCode\<close> and \<open>data\<close>,
  the latter cast to the envelope by the source (\<open>res.data as Response<T>\<close>). The fields
  named \<open>data\<close> in the source are \<open>env_data\<close> (envelope) and \<open>res_data\<close> (response) here,
  because the state cell is called \<open>data\<close> as well.
\<close>

record envelope =
  code :: string
  msg :: string
  env_data :: jsval

record response =
  statusCode :: int
  res_data :: envelope

text \<open>The two notification titles: the UTF-8 bytes of the literals in the source.\<close>

definition request_error_title :: string where
  "request_error_title =
     [CHR 0xE8, CHR 0xAF, CHR 0xB7, CHR 0xE6, CHR 0xB1, CHR 0x82,
      CHR 0xE9, CHR 0x94, CHR 0x99, CHR 0xE8, CHR 0xAF, CHR 0xAF]"

definition network_error_title :: string where
  "network_error_title =
     [CHR 0xE7, CHR 0xBD, CHR 0x91, CHR 0xE7, CHR 0xBB, CHR 0x9C,
      CHR 0xE9, CHR 0x94, CHR 0x99, CHR 0xE8, CHR 0xAF, CHR 0xAF]"

section \<open>The composable's closure and reactive state\<close>

text \<open>
  What the closure of one \<open>useRequest\<close> call binds once (\<open>closure\<close>) and the cells it
  mutates (\<open>state\<close>). Everything the composable does to the outside world is appended to
  \<open>effects\<close>: the transport call with its descriptor, \<open>uni.showToast\<close> with its title
  (the icon is always \<open>"none"\<close>), and the calls of the three optional callbacks.
\<close>

datatype effect =
    Request props
  | ShowToast string
  | OnSuccess jsval
  | OnError jsval
  | OnFinish

record closure =
  url :: "string option"
  defaultConfig :: jsval
  initialData :: jsval
  shallow :: jsval
  immediate :: jsval
  resetOnExecute :: jsval
  onSuccess :: jsval
  onError :: jsval
  onFinish :: jsval

record state =
  response :: "response option"
  data :: jsval
  isFinished :: bool
  isLoading :: bool
  error :: jsval
  executeCounter :: nat
  effects :: "effect list"

text \<open>The cells as \<open>useRequest\<close> creates them (lines 147-151 and 175).\<close>

definition init_state :: "closure \<Rightarrow> state" where
  "init_state env =
     \<lparr> response = None, data = initialData env, isFinished = False, isLoading = False,
       error = Undefined, executeCounter = 0, effects = [] \<rparr>"

definition loading :: "bool \<Rightarrow> state \<Rightarrow> state" where
  "loading b s = s\<lparr> isLoading := b, isFinished := \<not> b \<rparr>"

definition resetData :: "closure \<Rightarrow> state \<Rightarrow> state" where
  "resetData env s = (if truthy (resetOnExecute env) then s\<lparr> data := initialData env \<rparr> else s)"

text \<open>\<open>cb?.(x)\<close>: the callback is called unless it is \<open>undefined\<close> or \<open>null\<close>.\<close>

definition call_opt :: "jsval \<Rightarrow> effect \<Rightarrow> state \<Rightarrow> state" where
  "call_opt cb e s = (if nullish cb then s else s\<lparr> effects := effects s @ [e] \<rparr>)"

definition showToast :: "string \<Rightarrow> state \<Rightarrow> state" where
  "showToast title s = s\<lparr> effects := effects s @ [ShowToast title] \<rparr>"

section \<open>execute\<close>

text \<open>
  The first parameter of \<open>execute\<close> is \<open>string | RequestConfig | undefined\<close>, the second
  an optional \<open>RequestConfig\<close> (\<open>None\<close>: omitted, the default \<open>{}\<close> applies).
\<close>

datatype exec_arg = EUndefined | EString string | EConfig props

text \<open>
  The constant \<open>_url\<close> of the source (lines 178-183). The default \<open>executeUrl = url\<close>
  applies when the argument is \<open>undefined\<close>.
\<close>

definition resolve_url :: "closure \<Rightarrow> exec_arg \<Rightarrow> props option \<Rightarrow> jsval" where
  "resolve_url env executeUrl config =
     (let executeUrl' =
            (case executeUrl of
               EUndefined \<Rightarrow> (case url env of Some u \<Rightarrow> EString u | None \<Rightarrow> EUndefined)
             | _ \<Rightarrow> executeUrl);
          config' = (case config of None \<Rightarrow> [] | Some c \<Rightarrow> c)
      in case executeUrl' of
           EString u \<Rightarrow> JStr u
         | _ \<Rightarrow> (case url env of Some u \<Rightarrow> JStr u | None \<Rightarrow> get_prop config' ''url''))"

text \<open>
  The synchronous part of \<open>execute\<close> (lines 181-197 and 228): up to and including the call
  of the transport, whose descriptor is logged. The invocation's captured
  \<open>currentExecuteCounter\<close> is the value of \<open>executeCounter\<close> in the state returned.
\<close>

definition execute :: "closure \<Rightarrow> exec_arg \<Rightarrow> props option \<Rightarrow> state \<Rightarrow> state" where
  "execute env executeUrl config s =
     (let s1 = s\<lparr> error := Undefined \<rparr>;
          u = resolve_url env executeUrl config
      in if u = Undefined
         then s1\<lparr> error := JStr ''ERR_INVALID_URL'', isFinished := True \<rparr>
         else
           let s2 = loading True (resetData env s1);
               s3 = s2\<lparr> executeCounter := executeCounter s2 + 1 \<rparr>
           in s3\<lparr> effects := effects s3 @ [Request (spread [(''url'', u)] (defaultConfig env))] \<rparr>)"

text \<open>The \<open>.then\<close> handler (lines 198-212).\<close>

definition on_fulfilled :: "closure \<Rightarrow> response \<Rightarrow> state \<Rightarrow> state" where
  "on_fulfilled env res s =
     (if statusCode res \<ge> 200 \<and> statusCode res < 300 then
        let s1 = s\<lparr> response := Some res \<rparr>;
            s2 = s1\<lparr> data := env_data (res_data res) \<rparr>
        in call_opt (onSuccess env) (OnSuccess (data s2)) s2
      else if statusCode res = 401 then s
      else
        let title = (if truthy (JStr (msg (res_data res))) then msg (res_data res)
                     else request_error_title)
        in call_opt (onError env) (OnError (JStr title)) (showToast title s))"

text \<open>The \<open>.catch\<close> handler (lines 213-220).\<close>

definition on_rejected :: "closure \<Rightarrow> jsval \<Rightarrow> state \<Rightarrow> state" where
  "on_rejected env e s =
     call_opt (onError env) (OnError e) (showToast network_error_title (s\<lparr> error := e \<rparr>))"

text \<open>The \<open>.finally\<close> handler (lines 221-226) of the invocation that captured \<open>currentExecuteCounter\<close>.\<close>

definition on_finally :: "closure \<Rightarrow> nat \<Rightarrow> state \<Rightarrow> state" where
  "on_finally env currentExecuteCounter s =
     (if currentExecuteCounter = executeCounter s
      then call_opt (onFinish env) OnFinish (loading False s)
      else s)"


section \<open>The thenable\<close>

datatype settlement = Pending | Resolved | Rejected jsval

text \<open>
  Modelled from the spec: \<open>until\<close>, imported from \<open>@/shared\<close>, is not among the sources.
  The spec describes it as the reactive primitive's helper that waits until a predicate
  on a cell holds; \<open>until(cell).toBe(v)\<close> is a promise that is fulfilled as soon as the cell
  holds \<open>v\<close>, at once if it already does, and is pending until then. \<open>until_toBe c v\<close> says
  whether that promise is fulfilled when the cell holds \<open>c\<close>.
\<close>

definition until_toBe :: "bool \<Rightarrow> bool \<Rightarrow> bool" where
  "until_toBe c v = (c = v)"

text \<open>
  \<open>waitUntilFinished\<close> (lines 162-168), which \<open>promise.then\<close> and \<open>promise.catch\<close> call:
  the settlement of the promise it returns when the cells are as in \<open>s\<close>. The value it
  resolves with is the composable's result object itself.
\<close>

definition waitUntilFinished :: "state \<Rightarrow> settlement" where
  "waitUntilFinished s =
     (if until_toBe (isFinished s) True
      then (if truthy (error s) then Rejected (error s) else Resolved)
      else Pending)"

section \<open>The second variant of the handlers\<close>

text \<open>
  The repository holds a second copy of the composable, which takes no callbacks. Its
  \<open>.catch\<close> handler ends by throwing \<open>new Error(e.errMsg)\<close>, so the handler returns the
  state together with the exception that leaves it; reading \<open>errMsg\<close> of \<open>undefined\<close> or
  \<open>null\<close> throws a \<open>TypeError\<close> instead. Its \<open>.finally\<close> handler has no \<open>onFinish\<close>.
\<close>

datatype exn = TypeError | Error jsval

definition on_rejected_v2 :: "jsval \<Rightarrow> state \<Rightarrow> state \<times> exn" where
  "on_rejected_v2 e s =
     (showToast network_error_title (s\<lparr> error := e \<rparr>),
      if nullish e then TypeError else Error (get_member e ''errMsg''))"

definition on_finally_v2 :: "nat \<Rightarrow> state \<Rightarrow> state" where
  "on_finally_v2 currentExecuteCounter s =
     (if currentExecuteCounter = executeCounter s then loading False s else s)"

section \<open>useRequest\<close>

text \<open>
  The construction (lines 114-151 and 231-233) on the argument list \<open>args\<close>. Destructuring
  an \<open>options\<close> that is \<open>undefined\<close> or \<open>null\<close> throws a \<open>TypeError\<close>. The result is the
  closure and the state in which \<open>useRequest\<close> returns, after the automatic first call if
  there is one.
\<close>

datatype ref_kind = ShallowRef | DeepRef

definition data_ref :: "closure \<Rightarrow> ref_kind" where
  "data_ref env = (if truthy (shallow env) then ShallowRef else DeepRef)"

definition url_value :: "string option \<Rightarrow> jsval" where
  "url_value u = (case u of None \<Rightarrow> Undefined | Some a \<Rightarrow> JStr a)"

definition useRequest :: "jsval list \<Rightarrow> exn + closure \<times> state" where
  "useRequest args =
     (let url' = (case args of JStr u # _ \<Rightarrow> Some u | _ \<Rightarrow> None);
          argsPlaceholder = (case url' of Some u \<Rightarrow> (1::nat) | None \<Rightarrow> 0);
          defaultConfig' =
            (if length args > 0 + argsPlaceholder then args ! (0 + argsPlaceholder)
             else JObj []);
          options =
            (if length args = 2 + argsPlaceholder \<or> length args = 3 + argsPlaceholder
             then args ! (length args - 1)
             else JObj [(''immediate'', JBool (truthy (JNum (int argsPlaceholder)))),
                        (''shallow'', JBool True)])
      in if nullish options then Inl TypeError
         else
           let env = \<lparr> url = url', defaultConfig = defaultConfig',
                       initialData = get_member options ''initialData'',
                       shallow = get_member options ''shallow'',
                       immediate = get_member options ''immediate'',
                       resetOnExecute =
                         (case get_member options ''resetOnExecute'' of
                            Undefined \<Rightarrow> JBool False | v \<Rightarrow> v),
                       onSuccess = get_member options ''onSuccess'',
                       onError = get_member options ''onError'',
                       onFinish = get_member options ''onFinish'' \<rparr>;
               s0 = init_state env
           in Inr (env,
                   if truthy (immediate env) \<and> truthy (url_value url')
                   then execute env EUndefined None s0 else s0))"

section \<open>Runs of one composable instance\<close>

text \<open>
  The event loop runs one handler at a time. A run of an instance is a sequence of
  events: a call of \<open>execute\<close>, or one of the three handlers of some invocation's promise
  chain, the \<open>.finally\<close> handler with the counter value its invocation captured. A callback
  that calls \<open>execute\<close> itself does so as the last statement of its handler, which is the
  same as the \<open>Execute\<close> event right after the handler's event. Callbacks are taken to
  return normally.
\<close>

datatype event =
    Execute exec_arg "props option"
  | Fulfil response
  | Reject jsval
  | Finally nat

fun step :: "closure \<Rightarrow> event \<Rightarrow> state \<Rightarrow> state" where
  "step env (Execute executeUrl config) s = execute env executeUrl config s"
| "step env (Fulfil res) s = on_fulfilled env res s"
| "step env (Reject e) s = on_rejected env e s"
| "step env (Finally tok) s = on_finally env tok s"

definition run :: "closure \<Rightarrow> event list \<Rightarrow> state \<Rightarrow> state" where
  "run env evs s = fold (step env) evs s"

text \<open>
  An invocation's whole completion when its handlers run back to back: the \<open>.then\<close> or
  the \<open>.catch\<close> handler, then the \<open>.finally\<close> handler.
\<close>

datatype outcome = Success response | Failure jsval

fun handle :: "closure \<Rightarrow> outcome \<Rightarrow> state \<Rightarrow> state" where
  "handle env (Success res) s = on_fulfilled env res s"
| "handle env (Failure e) s = on_rejected env e s"

definition complete :: "closure \<Rightarrow> nat \<Rightarrow> outcome \<Rightarrow> state \<Rightarrow> state" where
  "complete env tok out s = on_finally env tok (handle env out s)"

text \<open>
  A run in which no call of \<open>execute\<close> finds itself without an address while a request
  is loading.
\<close>

fun admissible :: "closure \<Rightarrow> event list \<Rightarrow> state \<Rightarrow> bool" where
  "admissible env [] s = True"
| "admissible env (ev # evs) s =
     ((case ev of
         Execute executeUrl config \<Rightarrow>
           (if resolve_url env executeUrl config = Undefined then isLoading s = False else True)
       | _ \<Rightarrow> True)
      \<and> admissible env evs (step env ev s))"

section \<open>Concrete instances\<close>

text \<open>
  \<open>easy_env\<close> is the closure of \<open>useRequest()\<close>. \<open>plain_env\<close> is the closure of
  \<open>useRequest("/a")\<close>, whose automatic call is the first \<open>execute()\<close> of its runs.
  \<open>strict_env\<close> is the closure of \<open>useRequest("/a", {}, strict_options)\<close>, which supplies
  the three callbacks and switches the automatic call off. \<open>manual_env\<close> is the closure of
  \<open>useRequest("/a", {}, {})\<close>.
\<close>

definition strict_options :: jsval where
  "strict_options =
     JObj [(''immediate'', JBool False), (''onSuccess'', JFun 1), (''onError'', JFun 2),
           (''onFinish'', JFun 3)]"

definition manual_env :: closure where
  "manual_env =
     \<lparr> url = Some ''/a'', defaultConfig = JObj [], initialData = Undefined,
       shallow = Undefined, immediate = Undefined, resetOnExecute = JBool False,
       onSuccess = Undefined, onError = Undefined, onFinish = Undefined \<rparr>"

definition easy_env :: closure where
  "easy_env =
     \<lparr> url = None, defaultConfig = JObj [], initialData = Undefined,
       shallow = JBool True, immediate = JBool False, resetOnExecute = JBool False,
       onSuccess = Undefined, onError = Undefined, onFinish = Undefined \<rparr>"

definition strict_env :: closure where
  "strict_env =
     \<lparr> url = Some ''/a'', defaultConfig = JObj [], initialData = Undefined,
       shallow = Undefined, immediate = JBool False, resetOnExecute = JBool False,
       onSuccess = JFun 1, onError = JFun 2, onFinish = JFun 3 \<rparr>"

definition plain_env :: closure where
  "plain_env =
     \<lparr> url = Some ''/a'', defaultConfig = JObj [], initialData = Undefined,
       shallow = JBool True, immediate = JBool True, resetOnExecute = JBool False,
       onSuccess = Undefined, onError = Undefined, onFinish = Undefined \<rparr>"

definition res_ok :: response where
  "res_ok = \<lparr> statusCode = 200, res_data = \<lparr> code = ''0'', msg = ''ok'', env_data = JNum 7 \<rparr> \<rparr>"


definition res_500 :: response where
  "res_500 = \<lparr> statusCode = 500, res_data = \<lparr> code = ''500'', msg = ''boom'', env_data = Null \<rparr> \<rparr>"

definition res_500_empty :: response where
  "res_500_empty = \<lparr> statusCode = 500, res_data = \<lparr> code = ''500'', msg = [], env_data = Null \<rparr> \<rparr>"

definition fail_obj :: jsval where
  "fail_obj = JObj [(''errMsg'', JStr ''request:fail'')]"

definition fail_other :: jsval where
  "fail_other = JObj [(''errMsg'', JStr ''request:fail timeout'')]"

text \<open>
  Two overlapping calls on \<open>strict_env\<close>; the second one's response arrives and its chain
  runs to the end while the first is still in flight.
\<close>

definition overlap_state :: state where
  "overlap_state =
     run strict_env [Fulfil res_ok, Finally 2]
       (execute strict_env EUndefined None
         (run strict_env [] (execute strict_env EUndefined None (init_state strict_env))))"


definition two_in_flight :: state where
  "two_in_flight =
     run plain_env [Execute EUndefined None, Execute EUndefined None] (init_state plain_env)"

definition both_flags_state :: state where
  "both_flags_state =
     run easy_env [Execute (EString ''/a'') None, Execute EUndefined None] (init_state easy_env)"

text \<open>\<open>blank_env\<close> is the closure of \<open>useRequest("")\<close>.\<close>

definition blank_env :: closure where
  "blank_env =
     \<lparr> url = Some [], defaultConfig = JObj [], initialData = Undefined,
       shallow = JBool True, immediate = JBool True, resetOnExecute = JBool False,
       onSuccess = Undefined, onError = Undefined, onFinish = Undefined \<rparr>"

section \<open>Basic facts about the state transformers\<close>

lemma call_opt_sel [simp]:
  "response (call_opt cb e s) = response s"
  "data (call_opt cb e s) = data s"
  "isFinished (call_opt cb e s) = isFinished s"
  "isLoading (call_opt cb e s) = isLoading s"
  "error (call_opt cb e s) = error s"
  "executeCounter (call_opt cb e s) = executeCounter s"
  "effects (call_opt cb e s) = effects s @ (if nullish cb then [] else [e])"
  by (simp_all add: call_opt_def)

lemma showToast_sel [simp]:
  "response (showToast t s) = response s"
  "data (showToast t s) = data s"
  "isFinished (showToast t s) = isFinished s"
  "isLoading (showToast t s) = isLoading s"
  "error (showToast t s) = error s"
  "executeCounter (showToast t s) = executeCounter s"
  "effects (showToast t s) = effects s @ [ShowToast t]"
  by (simp_all add: showToast_def)

lemma loading_sel [simp]:
  "response (loading b s) = response s"
  "data (loading b s) = data s"
  "isFinished (loading b s) = (\<not> b)"
  "isLoading (loading b s) = b"
  "error (loading b s) = error s"
  "executeCounter (loading b s) = executeCounter s"
  "effects (loading b s) = effects s"
  by (simp_all add: loading_def)

lemma resetData_sel [simp]:
  "response (resetData env s) = response s"
  "data (resetData env s) = (if truthy (resetOnExecute env) then initialData env else data s)"
  "isFinished (resetData env s) = isFinished s"
  "isLoading (resetData env s) = isLoading s"
  "error (resetData env s) = error s"
  "executeCounter (resetData env s) = executeCounter s"
  "effects (resetData env s) = effects s"
  by (simp_all add: resetData_def)

lemma init_state_sel [simp]:
  "response (init_state env) = None"
  "data (init_state env) = initialData env"
  "isFinished (init_state env) = False"
  "isLoading (init_state env) = False"
  "error (init_state env) = Undefined"
  "executeCounter (init_state env) = 0"
  "effects (init_state env) = []"
  by (simp_all add: init_state_def)

lemma execute_invalid:
  assumes "resolve_url env a c = Undefined"
  shows "execute env a c s = s\<lparr> error := JStr ''ERR_INVALID_URL'', isFinished := True \<rparr>"
  using assms by (simp add: execute_def)

lemma execute_valid_sel:
  assumes "resolve_url env a c \<noteq> Undefined"
  shows "response (execute env a c s) = response s"
    and "data (execute env a c s) =
           (if truthy (resetOnExecute env) then initialData env else data s)"
    and "isFinished (execute env a c s) = False"
    and "isLoading (execute env a c s) = True"
    and "error (execute env a c s) = Undefined"
    and "executeCounter (execute env a c s) = Suc (executeCounter s)"
    and "effects (execute env a c s) =
           effects s @ [Request (spread [(''url'', resolve_url env a c)] (defaultConfig env))]"
  using assms by (simp_all add: execute_def Let_def)

lemma on_fulfilled_flags [simp]:
  "isLoading (on_fulfilled env res s) = isLoading s"
  "isFinished (on_fulfilled env res s) = isFinished s"
  "executeCounter (on_fulfilled env res s) = executeCounter s"
  by (simp_all add: on_fulfilled_def Let_def)

lemma on_rejected_sel [simp]:
  "response (on_rejected env e s) = response s"
  "data (on_rejected env e s) = data s"
  "isLoading (on_rejected env e s) = isLoading s"
  "isFinished (on_rejected env e s) = isFinished s"
  "error (on_rejected env e s) = e"
  "executeCounter (on_rejected env e s) = executeCounter s"
  "effects (on_rejected env e s) =
     effects s @ ShowToast network_error_title # (if nullish (onError env) then [] else [OnError e])"
  by (simp_all add: on_rejected_def)

lemma handle_flags [simp]:
  "isLoading (handle env out s) = isLoading s"
  "isFinished (handle env out s) = isFinished s"
  "executeCounter (handle env out s) = executeCounter s"
  by (cases out; simp)+

lemma on_finally_counter [simp]:
  "executeCounter (on_finally env tok s) = executeCounter s"
  by (simp add: on_finally_def)

lemma on_finally_stale: "tok \<noteq> executeCounter s \<Longrightarrow> on_finally env tok s = s"
  by (simp add: on_finally_def)

lemma on_finally_current:
  "on_finally env (executeCounter s) s = call_opt (onFinish env) OnFinish (loading False s)"
  by (simp add: on_finally_def)

lemma execute_counter_mono: "executeCounter s \<le> executeCounter (execute env a c s)"
  by (cases "resolve_url env a c = Undefined") (simp_all add: execute_invalid execute_valid_sel)

lemma step_counter_mono: "executeCounter s \<le> executeCounter (step env ev s)"
  by (cases ev) (simp_all add: execute_counter_mono)

lemma run_Nil [simp]: "run env [] s = s"
  by (simp add: run_def)

lemma run_Cons [simp]: "run env (ev # evs) s = run env evs (step env ev s)"
  by (simp add: run_def)

lemma run_counter_mono: "executeCounter s \<le> executeCounter (run env evs s)"
proof (induction evs arbitrary: s)
  case Nil
  show ?case by simp
next
  case (Cons ev evs)
  have "executeCounter s \<le> executeCounter (step env ev s)"
    by (rule step_counter_mono)
  also have "\<dots> \<le> executeCounter (run env evs (step env ev s))"
    by (rule Cons.IH)
  finally show ?case by simp
qed

lemma resolve_url_bound [simp]: "url env = Some u \<Longrightarrow> resolve_url env EUndefined c = JStr u"
  by (simp add: resolve_url_def)

lemma resolve_url_string [simp]: "resolve_url env (EString u) c = JStr u"
  by (simp add: resolve_url_def)

section \<open>Overlapping invocations\<close>

text \<open>
  Claim C1, as amended. Both calls resolve an address, so both reach the transport and
  take a token. Invocation A starts (\<open>sA\<close> is the state its \<open>execute\<close> returns, and the
  value of the counter there is the token it captures), anything happens (\<open>evs\<close>),
  invocation B starts, anything happens again (\<open>evs'\<close>, which may hold A's own \<open>.then\<close> or
  \<open>.catch\<close> handler), and \<open>s\<close> is the state reached. A's \<open>.finally\<close> handler then leaves the state as
  it is: it writes neither \<open>isLoading\<close> nor \<open>isFinished\<close> and does not call \<open>onFinish\<close>. A's
  whole completion is its \<open>.then\<close> or \<open>.catch\<close> handler alone, which still stores the error
  and notifies, or stores the response and the data, and calls \<open>onError\<close> or \<open>onSuccess\<close>,
  and which never writes the two flags. In any state the \<open>.finally\<close> handler sets
  \<open>isLoading = false\<close> and \<open>isFinished = true\<close> and calls \<open>onFinish\<close> exactly when its
  token is the live counter; B's completion does so while B is the latest invocation.
\<close>

theorem stale_invocation_keeps_flags:
  fixes env :: closure and s0 :: state and evs evs' :: "event list"
  assumes A: "resolve_url env a cA \<noteq> Undefined"
      and B: "resolve_url env b cB \<noteq> Undefined"
  defines "sA \<equiv> execute env a cA s0"
  defines "sB \<equiv> execute env b cB (run env evs sA)"
  defines "s \<equiv> run env evs' sB"
  shows "on_finally env (executeCounter sA) s = s
       \<and> complete env (executeCounter sA) out s = handle env out s
       \<and> isLoading (complete env (executeCounter sA) out s) = isLoading s
       \<and> isFinished (complete env (executeCounter sA) out s) = isFinished s
       \<and> error (complete env (executeCounter sA) (Failure e) s) = e
       \<and> effects (complete env (executeCounter sA) (Failure e) s) =
           effects s @ ShowToast network_error_title #
             (if nullish (onError env) then [] else [OnError e])
       \<and> (200 \<le> statusCode res \<and> statusCode res < 300 \<longrightarrow>
            data (complete env (executeCounter sA) (Success res) s) = env_data (res_data res)
          \<and> effects (complete env (executeCounter sA) (Success res) s) =
              effects s @ (if nullish (onSuccess env) then []
                           else [OnSuccess (env_data (res_data res))]))
       \<and> on_finally env tok t =
           (if tok = executeCounter t
            then call_opt (onFinish env) OnFinish (loading False t) else t)
       \<and> (executeCounter s = executeCounter sB \<longrightarrow>
            isLoading (complete env (executeCounter sB) out s) = False
          \<and> isFinished (complete env (executeCounter sB) out s) = True
          \<and> effects (complete env (executeCounter sB) out s) =
              effects (handle env out s) @ (if nullish (onFinish env) then [] else [OnFinish]))"
proof -
  have "executeCounter sA \<le> executeCounter (run env evs sA)"
    by (rule run_counter_mono)
  also have "\<dots> < executeCounter sB"
    using B by (simp add: sB_def execute_valid_sel)
  also have "\<dots> \<le> executeCounter s"
    unfolding s_def by (rule run_counter_mono)
  finally have lt: "executeCounter sA < executeCounter s" .
  then have fin: "on_finally env (executeCounter sA) s = s"
    by (simp add: on_finally_stale)
  have stale: "complete env (executeCounter sA) out' s = handle env out' s" for out'
    using lt by (simp add: complete_def on_finally_stale)
  have succ: "200 \<le> statusCode res \<and> statusCode res < 300 \<longrightarrow>
      data (on_fulfilled env res s) = env_data (res_data res)
    \<and> effects (on_fulfilled env res s) =
        effects s @ (if nullish (onSuccess env) then []
                     else [OnSuccess (env_data (res_data res))])"
    by (simp add: on_fulfilled_def Let_def)
  have cur: "executeCounter s = executeCounter sB \<longrightarrow>
      isLoading (complete env (executeCounter sB) out s) = False
    \<and> isFinished (complete env (executeCounter sB) out s) = True
    \<and> effects (complete env (executeCounter sB) out s) =
        effects (handle env out s) @ (if nullish (onFinish env) then [] else [OnFinish])"
    by (simp add: complete_def on_finally_def)
  have gate: "on_finally env tok t =
      (if tok = executeCounter t then call_opt (onFinish env) OnFinish (loading False t) else t)"
    by (simp add: on_finally_def)
  show ?thesis
    using fin succ cur gate by (simp add: stale)
qed

theorem stale_invocation_keeps_flags_witness:
  "resolve_url strict_env EUndefined None \<noteq> Undefined
   \<and> executeCounter (execute strict_env EUndefined None (init_state strict_env)) = 1
   \<and> on_finally strict_env 1 overlap_state = overlap_state
   \<and> isFinished (complete strict_env 1 (Failure fail_obj) overlap_state) = isFinished overlap_state
   \<and> error (complete strict_env 1 (Failure fail_obj) overlap_state) = fail_obj"
proof -
  have r: "resolve_url strict_env EUndefined None \<noteq> Undefined"
    by (simp add: strict_env_def)
  have c: "executeCounter (execute strict_env EUndefined None (init_state strict_env)) = 1"
    using r by (simp add: execute_valid_sel)
  show ?thesis
    using r c stale_invocation_keeps_flags [OF r r, where ?s0.0 = "init_state strict_env"
        and evs = "[]" and evs' = "[Fulfil res_ok, Finally 2]" and out = "Failure fail_obj"
        and e = fail_obj and res = res_ok and tok = 2 and t = overlap_state]
    by (simp add: overlap_state_def)
qed

text \<open>
  The claim as written has this for every call B that starts after A. A call of \<open>execute\<close>
  that resolves no address returns before the increment and takes no token, so it does
  not supersede A: on \<open>useRequest()\<close>, after \<open>execute("/a")\<close> and then \<open>execute()\<close> the
  counter is still A's token 1, and when A's response arrives its \<open>.finally\<close> handler
  passes the test and sets \<open>isLoading\<close>, which was true, to false.
\<close>

theorem address_less_call_does_not_supersede_counterexample:
  "executeCounter (execute easy_env (EString ''/a'') None (init_state easy_env)) = 1
   \<and> resolve_url easy_env EUndefined None = Undefined
   \<and> executeCounter both_flags_state = 1
   \<and> isLoading both_flags_state = True
   \<and> isLoading (complete easy_env 1 (Success res_ok) both_flags_state) = False
   \<and> on_finally easy_env 1 both_flags_state \<noteq> both_flags_state"
proof -
  have r: "resolve_url easy_env (EString ''/a'') None \<noteq> Undefined"
    by simp
  have u: "resolve_url easy_env EUndefined None = Undefined"
    by (simp add: resolve_url_def easy_env_def get_prop_def)
  have c: "executeCounter both_flags_state = 1" and l: "isLoading both_flags_state = True"
    by (simp_all add: both_flags_state_def execute_invalid [OF u] execute_valid_sel [OF r])
  have f: "isLoading (on_finally easy_env 1 both_flags_state) = False"
    by (simp add: on_finally_def c)
  from l f have n: "on_finally easy_env 1 both_flags_state \<noteq> both_flags_state"
    by auto
  have "isLoading (complete easy_env 1 (Success res_ok) both_flags_state) = False"
    by (simp add: complete_def on_finally_def c)
  with u c l n show ?thesis
    by (simp add: execute_valid_sel [OF r])
qed

section \<open>The response handler\<close>

text \<open>
  Claim C4. When the transport resolves with a status code from 200 to 299 and the
  envelope \<open>{code, msg, data: D}\<close>, the \<open>.then\<close> handler leaves the raw response in the
  \<open>response\<close> cell and \<open>D\<close> in the \<open>data\<close> cell, and calls \<open>onSuccess\<close>, where one was
  supplied, with \<open>D\<close> and does nothing else to the outside world.
\<close>

theorem success_stores_response_and_data:
  assumes "200 \<le> statusCode res" and "statusCode res \<le> 299"
      and "res_data res = \<lparr> code = c, msg = m, env_data = D \<rparr>"
  shows "response (on_fulfilled env res s) = Some res
       \<and> data (on_fulfilled env res s) = D
       \<and> effects (on_fulfilled env res s) =
           effects s @ (if nullish (onSuccess env) then [] else [OnSuccess D])"
  using assms by (simp add: on_fulfilled_def Let_def)

theorem success_stores_response_and_data_witness:
  "200 \<le> statusCode res_ok \<and> statusCode res_ok \<le> 299
   \<and> res_data res_ok = \<lparr> code = ''0'', msg = ''ok'', env_data = JNum 7 \<rparr>
   \<and> response (on_fulfilled strict_env res_ok (init_state strict_env)) = Some res_ok
   \<and> data (on_fulfilled strict_env res_ok (init_state strict_env)) = JNum 7
   \<and> effects (on_fulfilled strict_env res_ok (init_state strict_env)) = [OnSuccess (JNum 7)]"
proof -
  have h1: "200 \<le> statusCode res_ok" and h2: "statusCode res_ok \<le> 299"
    and h3: "res_data res_ok = \<lparr> code = ''0'', msg = ''ok'', env_data = JNum 7 \<rparr>"
    by (simp_all add: res_ok_def)
  have cb: "nullish (onSuccess strict_env) = False"
    by (simp add: strict_env_def)
  show ?thesis
    using h1 h2 h3
      success_stores_response_and_data [OF h1 h2 h3, of strict_env "init_state strict_env"]
    by (simp add: cb)
qed

lemma request_error_title_nonempty: "request_error_title \<noteq> []"
  by (simp add: request_error_title_def)

text \<open>
  Claim C5. When the transport resolves with a status code that is neither in 200-299
  nor 401 and the envelope's message is \<open>M\<close>, the \<open>.then\<close> handler shows one notification
  whose title is \<open>M\<close>, or the fixed fallback title when \<open>M\<close> is empty, and then calls
  \<open>onError\<close>, where one was supplied, with that same title. The title is never empty.
\<close>

theorem other_status_notifies:
  assumes "\<not> (200 \<le> statusCode res \<and> statusCode res \<le> 299)" and "statusCode res \<noteq> 401"
      and "msg (res_data res) = M"
  defines "title \<equiv> (if M = [] then request_error_title else M)"
  shows "effects (on_fulfilled env res s) =
           effects s @ ShowToast title # (if nullish (onError env) then [] else [OnError (JStr title)])
       \<and> title \<noteq> []"
  using assms by (auto simp add: on_fulfilled_def Let_def request_error_title_nonempty)

theorem other_status_notifies_witness:
  "\<not> (200 \<le> statusCode res_500_empty \<and> statusCode res_500_empty \<le> 299)
   \<and> statusCode res_500_empty \<noteq> 401
   \<and> msg (res_data res_500_empty) = []
   \<and> effects (on_fulfilled strict_env res_500_empty (init_state strict_env)) =
       [ShowToast request_error_title, OnError (JStr request_error_title)]"
proof -
  have h1: "\<not> (200 \<le> statusCode res_500_empty \<and> statusCode res_500_empty \<le> 299)"
    and h2: "statusCode res_500_empty \<noteq> 401" and h3: "msg (res_data res_500_empty) = []"
    by (simp_all add: res_500_empty_def)
  have cb: "nullish (onError strict_env) = False"
    by (simp add: strict_env_def)
  show ?thesis
    using h1 h2 h3 other_status_notifies [OF h1 h2 h3, of strict_env "init_state strict_env"]
    by (simp add: cb)
qed

section \<open>A call without an address\<close>

lemma resolve_url_none:
  assumes "\<And>u. a \<noteq> EString u" and "url env = None"
      and "get_prop (case c of None \<Rightarrow> [] | Some c' \<Rightarrow> c') ''url'' = Undefined"
  shows "resolve_url env a c = Undefined"
  using assms by (cases a) (auto simp add: resolve_url_def)

lemma easy_env_no_address: "resolve_url easy_env EUndefined None = Undefined"
  by (simp add: resolve_url_def easy_env_def get_prop_def)

text \<open>
  Claim C2, as amended. When the first argument of \<open>execute\<close> is not a string, no address
  is bound and the config argument holds none, \<open>execute\<close> sets \<open>error\<close> to
  \<open>"ERR_INVALID_URL"\<close> and \<open>isFinished\<close> to true, does not write \<open>isLoading\<close> (which
  therefore keeps the value it had: false unless an earlier request is still in flight),
  does not call the transport or anything else, leaves the counter alone, and the
  thenable it returns rejects with that error.
\<close>

theorem no_address_fails_at_once:
  assumes "\<forall>u. a \<noteq> EString u" and "url env = None"
      and "get_prop (case c of None \<Rightarrow> [] | Some c' \<Rightarrow> c') ''url'' = Undefined"
  shows "error (execute env a c s) = JStr ''ERR_INVALID_URL''
       \<and> isFinished (execute env a c s) = True
       \<and> isLoading (execute env a c s) = isLoading s
       \<and> effects (execute env a c s) = effects s
       \<and> executeCounter (execute env a c s) = executeCounter s
       \<and> waitUntilFinished (execute env a c s) = Rejected (JStr ''ERR_INVALID_URL'')"
proof -
  have "resolve_url env a c = Undefined"
    using assms by (intro resolve_url_none) simp_all
  then have "execute env a c s = s\<lparr> error := JStr ''ERR_INVALID_URL'', isFinished := True \<rparr>"
    by (rule execute_invalid)
  then show ?thesis
    by (simp add: waitUntilFinished_def until_toBe_def)
qed

theorem no_address_fails_at_once_witness:
  "(\<forall>u. EUndefined \<noteq> EString u) \<and> url easy_env = None
   \<and> get_prop (case None of None \<Rightarrow> [] | Some c' \<Rightarrow> c') ''url'' = Undefined
   \<and> error (execute easy_env EUndefined None (init_state easy_env)) = JStr ''ERR_INVALID_URL''
   \<and> isFinished (execute easy_env EUndefined None (init_state easy_env))
   \<and> \<not> isLoading (execute easy_env EUndefined None (init_state easy_env))
   \<and> effects (execute easy_env EUndefined None (init_state easy_env)) = []"
proof -
  have h1: "\<forall>u. EUndefined \<noteq> EString u" and h2: "url easy_env = None"
    and h3: "get_prop (case None of None \<Rightarrow> [] | Some c' \<Rightarrow> c') ''url'' = Undefined"
    by (simp_all add: easy_env_def get_prop_def)
  show ?thesis
    using h1 h2 h3 no_address_fails_at_once [OF h1 h2 h3, of "init_state easy_env"]
    by simp
qed

text \<open>
  The claim as written has \<open>isLoading = false\<close> after such a call. On \<open>useRequest()\<close>,
  \<open>execute("/a")\<close> followed, before the response arrives, by \<open>execute()\<close> ends with
  \<open>isLoading\<close> still true.
\<close>

theorem no_address_while_loading_counterexample:
  "resolve_url easy_env EUndefined None = Undefined
   \<and> isLoading (execute easy_env EUndefined None
        (execute easy_env (EString ''/a'') None (init_state easy_env))) \<noteq> False"
proof -
  have r: "resolve_url easy_env (EString ''/a'') None \<noteq> Undefined"
    by simp
  show ?thesis
    using easy_env_no_address
    by (simp add: execute_invalid execute_valid_sel [OF r])
qed

section \<open>The execution counter\<close>

text \<open>
  Claim C9, as amended. A call of \<open>execute\<close> that resolves an address adds exactly one to
  the counter; a call that resolves none returns before the increment and leaves the
  counter as it is. No event of a run ever decreases the counter, which starts at 0.
\<close>

theorem counter_steps:
  "executeCounter (execute env a c s) =
     (if resolve_url env a c = Undefined then executeCounter s else executeCounter s + 1)
   \<and> executeCounter s \<le> executeCounter (step env ev s)
   \<and> executeCounter s \<le> executeCounter (run env evs s)
   \<and> executeCounter (init_state env) = 0"
  by (simp add: execute_invalid execute_valid_sel step_counter_mono run_counter_mono)

text \<open>
  The claim as written has the increment on every call, whether an address resolves or
  not. The first \<open>execute()\<close> on \<open>useRequest()\<close> leaves the counter at 0.
\<close>

theorem counter_unchanged_without_address_counterexample:
  "executeCounter (execute easy_env EUndefined None (init_state easy_env)) \<noteq>
     executeCounter (init_state easy_env) + 1"
  by (simp add: execute_invalid [OF easy_env_no_address])

section \<open>Status 401\<close>

lemma on_finally_sel [simp]:
  "response (on_finally env tok s) = response s"
  "data (on_finally env tok s) = data s"
  "error (on_finally env tok s) = error s"
  by (simp_all add: on_finally_def)

lemma plain_env_resolves: "resolve_url plain_env EUndefined c \<noteq> Undefined"
  by (simp add: plain_env_def)






section \<open>Transport rejection\<close>

lemma on_rejected_v2_sel [simp]:
  "error (fst (on_rejected_v2 e s)) = e"
  "effects (fst (on_rejected_v2 e s)) = effects s @ [ShowToast network_error_title]"
  "isFinished (fst (on_rejected_v2 e s)) = isFinished s"
  "isLoading (fst (on_rejected_v2 e s)) = isLoading s"
  "executeCounter (fst (on_rejected_v2 e s)) = executeCounter s"
  "data (fst (on_rejected_v2 e s)) = data s"
  by (simp_all add: on_rejected_v2_def)

text \<open>
  Claim C7, as amended. When the transport rejects with \<open>e\<close>, the \<open>.catch\<close> handler stores
  \<open>e\<close> in the \<open>error\<close> cell and shows one notification with the fixed network-error title,
  in both copies of the composable. The copy with callbacks then calls \<open>onError\<close>, where
  one was supplied, with \<open>e\<close> itself; the copy without callbacks calls nothing and throws
  \<open>new Error(e.errMsg)\<close>. If the invocation's token is the live counter, then after its
  \<open>.finally\<close> handler the thenable rejects with \<open>e\<close>, for every truthy \<open>e\<close>, and an error
  object is truthy. If the invocation has been superseded, its completion leaves
  \<open>isFinished\<close> as it was, so the thenable is not settled by it.
\<close>

theorem rejection_is_recorded:
  "error (on_rejected env e s) = e
   \<and> effects (on_rejected env e s) =
       effects s @ ShowToast network_error_title # (if nullish (onError env) then [] else [OnError e])
   \<and> error (fst (on_rejected_v2 e s)) = e
   \<and> effects (fst (on_rejected_v2 e s)) = effects s @ [ShowToast network_error_title]
   \<and> snd (on_rejected_v2 (JObj ps) s) = Error (get_prop ps ''errMsg'')
   \<and> (tok = executeCounter s \<and> truthy e \<longrightarrow>
        waitUntilFinished (complete env tok (Failure e) s) = Rejected e
      \<and> waitUntilFinished (on_finally_v2 tok (fst (on_rejected_v2 e s))) = Rejected e)
   \<and> truthy (JObj ps)
   \<and> (tok \<noteq> executeCounter s \<longrightarrow>
        isFinished (complete env tok (Failure e) s) = isFinished s
      \<and> isFinished (on_finally_v2 tok (fst (on_rejected_v2 e s))) = isFinished s)"
  by (simp add: complete_def on_finally_def on_finally_v2_def waitUntilFinished_def
      until_toBe_def on_rejected_v2_def)

theorem rejection_is_recorded_witness:
  "1 = executeCounter (execute strict_env EUndefined None (init_state strict_env))
   \<and> truthy fail_obj
   \<and> waitUntilFinished
        (complete strict_env 1 (Failure fail_obj)
          (execute strict_env EUndefined None (init_state strict_env))) = Rejected fail_obj"
proof -
  have r: "resolve_url strict_env EUndefined None \<noteq> Undefined"
    by (simp add: strict_env_def)
  have c: "1 = executeCounter (execute strict_env EUndefined None (init_state strict_env))"
    by (simp add: execute_valid_sel [OF r])
  have t: "truthy fail_obj"
    by (simp add: fail_obj_def)
  show ?thesis
    using c t rejection_is_recorded [of strict_env fail_obj
        "execute strict_env EUndefined None (init_state strict_env)" "[]" 1]
    by simp
qed

text \<open>
  The claim as written has the thenable reject with \<open>e\<close> once the invocation finishes,
  for every rejection. With two calls in flight, the first one's rejection with \<open>fail_obj\<close>
  leaves the thenable pending, and when the second is rejected with another error the
  thenable rejects with that one.
\<close>

theorem stale_rejection_counterexample:
  "waitUntilFinished (complete plain_env 1 (Failure fail_obj) two_in_flight) = Pending
   \<and> waitUntilFinished
        (complete plain_env 2 (Failure fail_other)
          (complete plain_env 1 (Failure fail_obj) two_in_flight)) = Rejected fail_other
   \<and> fail_other \<noteq> fail_obj"
  by (simp add: two_in_flight_def complete_def on_finally_def waitUntilFinished_def
      until_toBe_def execute_valid_sel [OF plain_env_resolves] fail_other_def fail_obj_def)

section \<open>The two loading flags\<close>

lemma execute_flags_exclusive:
  assumes "resolve_url env a c = Undefined \<Longrightarrow> isLoading s = False"
  shows "isLoading (execute env a c s) \<noteq> isFinished (execute env a c s)"
proof (cases "resolve_url env a c = Undefined")
  case True
  with assms show ?thesis by (simp add: execute_invalid)
next
  case False
  then show ?thesis by (simp add: execute_valid_sel)
qed

lemma on_finally_flags_exclusive:
  "isLoading s \<noteq> isFinished s \<Longrightarrow>
   isLoading (on_finally env tok s) \<noteq> isFinished (on_finally env tok s)"
  by (simp add: on_finally_def)

lemma step_flags_exclusive:
  assumes "isLoading s \<noteq> isFinished s" and "admissible env (ev # evs) s"
  shows "isLoading (step env ev s) \<noteq> isFinished (step env ev s)"
proof (cases ev)
  case (Execute a c)
  with assms(2) have "resolve_url env a c = Undefined \<Longrightarrow> isLoading s = False"
    by (simp split: if_splits)
  then show ?thesis
    unfolding Execute step.simps by (rule execute_flags_exclusive)
next
  case (Fulfil res)
  with assms(1) show ?thesis by simp
next
  case (Reject e)
  with assms(1) show ?thesis by simp
next
  case (Finally tok)
  with assms(1) show ?thesis by (simp add: on_finally_flags_exclusive)
qed

lemma run_flags_exclusive:
  "isLoading s \<noteq> isFinished s \<Longrightarrow> admissible env evs s \<Longrightarrow>
   isLoading (run env evs s) \<noteq> isFinished (run env evs s)"
proof (induction evs arbitrary: s)
  case Nil
  then show ?case by simp
next
  case (Cons ev evs)
  from Cons.prems have "isLoading (step env ev s) \<noteq> isFinished (step env ev s)"
    by (rule step_flags_exclusive)
  moreover from Cons.prems(2) have "admissible env evs (step env ev s)"
    by simp
  ultimately show ?case
    using Cons.IH by simp
qed

text \<open>
  Claim C8, as amended. Before the first \<open>execute\<close> both flags are false. From the first
  \<open>execute\<close> on, exactly one of \<open>isLoading\<close> and \<open>isFinished\<close> is true after every event of
  the run, provided no call of \<open>execute\<close> that resolves no address is made while
  \<open>isLoading\<close> is true (\<open>admissible\<close>).
\<close>

theorem flags_exclusive_after_first_execute:
  assumes "admissible env (Execute a c # evs) (init_state env)"
  shows "isLoading (run env (Execute a c # evs) (init_state env))
           \<noteq> isFinished (run env (Execute a c # evs) (init_state env))
       \<and> isLoading (init_state env) = False \<and> isFinished (init_state env) = False"
proof -
  have "isLoading (execute env a c (init_state env)) \<noteq> isFinished (execute env a c (init_state env))"
    by (rule execute_flags_exclusive) simp
  moreover from assms have "admissible env evs (execute env a c (init_state env))"
    by simp
  ultimately show ?thesis
    using run_flags_exclusive [of "execute env a c (init_state env)" env evs] by simp
qed

theorem flags_exclusive_after_first_execute_witness:
  "admissible easy_env
     [Execute (EString ''/a'') None, Fulfil res_ok, Finally 1, Execute EUndefined None]
     (init_state easy_env)
   \<and> isLoading (run easy_env
        [Execute (EString ''/a'') None, Fulfil res_ok, Finally 1, Execute EUndefined None]
        (init_state easy_env))
      \<noteq> isFinished (run easy_env
        [Execute (EString ''/a'') None, Fulfil res_ok, Finally 1, Execute EUndefined None]
        (init_state easy_env))"
proof -
  have r: "resolve_url easy_env (EString ''/a'') None \<noteq> Undefined"
    by simp
  have u: "resolve_url easy_env EUndefined None = Undefined"
    by (simp add: resolve_url_def easy_env_def get_prop_def)
  have h: "admissible easy_env
     [Execute (EString ''/a'') None, Fulfil res_ok, Finally 1, Execute EUndefined None]
     (init_state easy_env)"
    by (simp add: u on_finally_def execute_valid_sel [OF r])
  show ?thesis
    using h flags_exclusive_after_first_execute [OF h] by simp
qed

text \<open>
  The claim as written has the invariant after every call of \<open>execute\<close>. On
  \<open>useRequest()\<close>, \<open>execute("/a")\<close> followed, before the response arrives, by \<open>execute()\<close>
  leaves both flags true.
\<close>

theorem both_flags_true_counterexample:
  "isLoading both_flags_state \<and> isFinished both_flags_state"
proof -
  have r: "resolve_url easy_env (EString ''/a'') None \<noteq> Undefined"
    by simp
  have u: "resolve_url easy_env EUndefined None = Undefined"
    by (simp add: resolve_url_def easy_env_def get_prop_def)
  show ?thesis
    by (simp add: both_flags_state_def execute_invalid [OF u] execute_valid_sel [OF r])
qed

section \<open>The request descriptor\<close>

text \<open>
  Claim C3. The descriptor handed to the transport is \<open>{ url: _url, ...defaultConfig }\<close>:
  the per-call config argument of \<open>execute\<close> is not part of it. On the instance
  \<open>useRequest("/a", {}, {})\<close>, \<open>execute("/a", { method: "POST" })\<close> calls the transport
  with \<open>{ url: "/a" }\<close> and no \<open>method\<close>.
\<close>

theorem per_call_config_dropped:
  "useRequest [JStr ''/a'', JObj [], JObj []] = Inr (manual_env, init_state manual_env)
   \<and> effects (execute manual_env (EString ''/a'') (Some [(''method'', JStr ''POST'')])
                (init_state manual_env)) = [Request [(''url'', JStr ''/a'')]]"
proof -
  have "resolve_url manual_env (EString ''/a'') (Some [(''method'', JStr ''POST'')]) \<noteq> Undefined"
    by simp
  then have "effects (execute manual_env (EString ''/a'') (Some [(''method'', JStr ''POST'')])
                (init_state manual_env)) = [Request [(''url'', JStr ''/a'')]]"
    by (simp add: execute_valid_sel manual_env_def)
  moreover have "useRequest [JStr ''/a'', JObj [], JObj []] = Inr (manual_env, init_state manual_env)"
    by (simp add: useRequest_def Let_def manual_env_def get_prop_def)
  ultimately show ?thesis
    by simp
qed

section \<open>Construction\<close>

lemma useRequest_url:
  "useRequest [JStr u] =
     (let env = \<lparr> url = Some u, defaultConfig = JObj [], initialData = Undefined,
                  shallow = JBool True, immediate = JBool True, resetOnExecute = JBool False,
                  onSuccess = Undefined, onError = Undefined, onFinish = Undefined \<rparr>
      in Inr (env, if u = [] then init_state env else execute env EUndefined None (init_state env)))"
  by (simp add: useRequest_def Let_def get_prop_def url_value_def)

lemma useRequest_url_config:
  "useRequest [JStr u, cfg] =
     (let env = \<lparr> url = Some u, defaultConfig = cfg, initialData = Undefined,
                  shallow = JBool True, immediate = JBool True, resetOnExecute = JBool False,
                  onSuccess = Undefined, onError = Undefined, onFinish = Undefined \<rparr>
      in Inr (env, if u = [] then init_state env else execute env EUndefined None (init_state env)))"
  by (simp add: useRequest_def Let_def get_prop_def url_value_def)

lemma useRequest_url_config_options:
  "useRequest [JStr u, cfg, JObj opts] =
     (let env = \<lparr> url = Some u, defaultConfig = cfg,
                  initialData = get_prop opts ''initialData'',
                  shallow = get_prop opts ''shallow'',
                  immediate = get_prop opts ''immediate'',
                  resetOnExecute = (case get_prop opts ''resetOnExecute'' of
                                      Undefined \<Rightarrow> JBool False | v \<Rightarrow> v),
                  onSuccess = get_prop opts ''onSuccess'',
                  onError = get_prop opts ''onError'',
                  onFinish = get_prop opts ''onFinish'' \<rparr>
      in Inr (env, if truthy (get_prop opts ''immediate'') \<and> u \<noteq> []
                   then execute env EUndefined None (init_state env) else init_state env))"
  by (simp add: useRequest_def Let_def url_value_def)

text \<open>The closures used in the examples are those of actual calls of \<open>useRequest\<close>.\<close>

lemma easy_env_constructed: "useRequest [] = Inr (easy_env, init_state easy_env)"
  by (simp add: useRequest_def Let_def easy_env_def get_prop_def url_value_def)

lemma plain_env_constructed:
  "useRequest [JStr ''/a''] =
     Inr (plain_env, execute plain_env EUndefined None (init_state plain_env))"
  by (simp add: useRequest_url Let_def plain_env_def)

lemma strict_env_constructed:
  "useRequest [JStr ''/a'', JObj [], strict_options] = Inr (strict_env, init_state strict_env)"
  by (simp add: strict_options_def useRequest_url_config_options Let_def strict_env_def
      get_prop_def)

text \<open>
  Claim C10, as amended. \<open>useRequest(u)\<close> and \<open>useRequest(u, cfg)\<close> with a string \<open>u\<close> take
  the defaults \<open>immediate = true\<close> and \<open>shallow = true\<close>, so the data cell is shallow, and
  they return after one call of \<open>execute()\<close>, hence one transport call, when \<open>u\<close> is not
  the empty string, and without any call when it is. \<open>useRequest(u, cfg, opts)\<close> with an
  options object takes \<open>immediate\<close> and \<open>shallow\<close> from \<open>opts\<close> alone: when \<open>opts\<close> has no
  \<open>immediate\<close> there is no automatic call, and when it has no \<open>shallow\<close> the data cell is
  deep.
\<close>

theorem construction_defaults:
  "(case useRequest [JStr u] of
      Inl x \<Rightarrow> False
    | Inr (env, s) \<Rightarrow>
        immediate env = JBool True \<and> shallow env = JBool True \<and> data_ref env = ShallowRef
      \<and> s = (if u = [] then init_state env else execute env EUndefined None (init_state env))
      \<and> effects s = (if u = [] then [] else [Request [(''url'', JStr u)]]))
   \<and> (case useRequest [JStr u, cfg] of
      Inl x \<Rightarrow> False
    | Inr (env, s) \<Rightarrow>
        immediate env = JBool True \<and> shallow env = JBool True \<and> data_ref env = ShallowRef
      \<and> s = (if u = [] then init_state env else execute env EUndefined None (init_state env))
      \<and> effects s = (if u = [] then [] else [Request (spread [(''url'', JStr u)] cfg)]))
   \<and> (case useRequest [JStr u, cfg, JObj opts] of
      Inl x \<Rightarrow> False
    | Inr (env, s) \<Rightarrow>
        immediate env = get_prop opts ''immediate'' \<and> shallow env = get_prop opts ''shallow''
      \<and> (map_of opts ''immediate'' = None \<longrightarrow> s = init_state env \<and> effects s = [])
      \<and> (map_of opts ''shallow'' = None \<longrightarrow> data_ref env = DeepRef))"
  by (simp add: useRequest_url useRequest_url_config useRequest_url_config_options Let_def
      data_ref_def execute_valid_sel get_prop_def)

theorem construction_defaults_witness:
  "map_of [(''onFinish'', JFun 3)] ''immediate'' = None
   \<and> map_of [(''onFinish'', JFun 3)] ''shallow'' = None
   \<and> (case useRequest [JStr ''/a'', JObj [], JObj [(''onFinish'', JFun 3)]] of
        Inl x \<Rightarrow> False
      | Inr (env, s) \<Rightarrow> s = init_state env \<and> effects s = [] \<and> data_ref env = DeepRef)"
  using construction_defaults [of "''/a''" "JObj []" "[(''onFinish'', JFun 3)]"]
  by (simp split: sum.splits prod.splits)

text \<open>
  The claim as written has the automatic call for every string first argument.
  \<open>useRequest("")\<close> binds the empty address with \<open>immediate = true\<close> and returns without
  having called \<open>execute\<close>: the guard is \<open>immediate && url\<close>, and the empty string is falsy.
\<close>

theorem empty_address_counterexample:
  "useRequest [JStr []] = Inr (blank_env, init_state blank_env)
   \<and> immediate blank_env = JBool True
   \<and> effects (init_state blank_env) = []"
  by (simp add: useRequest_url blank_env_def Let_def)

end
